theory Spec2Isabelle
  imports Main "HOL-Library.Multiset"
begin

section \<open>Data model of \<open>src/App.js\<close>\<close>

text \<open>
  The component \<open>App\<close> keeps six pieces of React state and talks to two services of the
  Firebase SDK (identity and Firestore) and to the console. The SDK objects are opaque to
  the component, so they are modelled as tagged handles.
\<close>

type_synonym js_error = string

datatype firebase_app = FirebaseApp string
datatype firestore = Firestore firebase_app
datatype auth_service = Auth firebase_app
datatype user = User (uid: string)

text \<open>An entry of the constant \<open>bakeryItems\<close> (lines 17-21): \<open>{ id, name }\<close>.\<close>

record bakery_item =
  item_id :: string
  item_name :: string

definition bakeryItems :: "bakery_item list" where
  "bakeryItems =
     [\<lparr>item_id = ''sausageRoll'', item_name = ''Sausage Roll''\<rparr>,
      \<lparr>item_id = ''hamCheeseCroissant'', item_name = ''Ham and Cheese Croissant''\<rparr>,
      \<lparr>item_id = ''spinachRoll'', item_name = ''Spinach Roll''\<rparr>]"

text \<open>
  The fields \<open>handleAddProduct\<close> writes (lines 115-118): \<open>name\<close>, \<open>timestamp\<close>
  (\<open>Date.now()\<close>, integral epoch milliseconds) and \<open>addedBy\<close> (the state \<open>userId\<close>,
  \<open>null\<close> before sign-in). A snapshot document is its backend identifier with its data; a
  product of the mirrored list is \<open>{ id: doc.id, ...doc.data() }\<close> (line 85), the fields
  extended by the identifier.
\<close>

record order_fields =
  name :: string
  timestamp :: int
  addedBy :: "string option"

record document =
  doc_id :: string
  doc_data :: order_fields

record product = order_fields +
  pid :: string

text \<open>
  The globals supplied by the hosting page, \<open>None\<close> where \<open>typeof x\<close> is
  \<open>'undefined'\<close>, and the result of lines 29-31 (\<open>JSON.parse\<close> followed by
  \<open>initializeApp\<close>), which can throw on a given configuration string.
\<close>

record environment =
  firebase_config :: "string option"
  app_id :: "string option"
  initial_auth_token :: "string option"
  initializeApp :: "string \<Rightarrow> js_error + firebase_app"

definition getFirestore :: "firebase_app \<Rightarrow> firestore" where
  "getFirestore app = Firestore app"

definition getAuth :: "firebase_app \<Rightarrow> auth_service" where
  "getAuth app = Auth app"

text \<open>Every call the component makes to a service, with its arguments.\<close>

datatype call =
    OnAuthStateChanged auth_service
  | SignInWithCustomToken auth_service string
  | SignInAnonymously auth_service
  | OnSnapshot firestore string
  | AddDoc firestore string order_fields
  | DeleteDoc firestore string string

text \<open>
  An \<open>async\<close> function runs to its first \<open>await\<close> or to its end. \<open>pending\<close> names the
  promise it waits for; \<open>promise\<close> is how the promise it returned settles.
\<close>

datatype pending = AwaitSignIn | AwaitAddDoc | AwaitDeleteDoc
datatype promise = Fulfilled | Rejected js_error
datatype async = Settles promise | Awaits pending

text \<open>
  The state: the six \<open>useState\<close> cells (lines 9-14), then what the component has done to
  the world around it: the lines written with \<open>console.error\<close> (message and the error
  object passed with it), the service calls in the order issued, the registered listeners,
  the promises being awaited, the rejections no handler received, and whether the
  component is mounted.
\<close>

record state =
  products :: "product list"
  db :: "firestore option"
  auth :: "auth_service option"
  userId :: "string option"
  isAuthReady :: bool
  loading :: bool
  console :: "(string \<times> js_error option) list"
  calls :: "call list"
  authListener :: "auth_service option"
  subscription :: "(firestore \<times> string) option"
  inflight :: "pending list"
  unhandled :: "js_error list"
  mounted :: bool

definition initial :: state where
  "initial = \<lparr>products = [], db = None, auth = None, userId = None, isAuthReady = False,
     loading = True, console = [], calls = [], authListener = None, subscription = None,
     inflight = [], unhandled = [], mounted = False\<rparr>"

definition console_error :: "string \<Rightarrow> js_error option \<Rightarrow> state \<Rightarrow> state" where
  "console_error msg err st = st\<lparr>console := console st @ [(msg, err)]\<rparr>"

definition issue :: "call \<Rightarrow> state \<Rightarrow> state" where
  "issue c st = st\<lparr>calls := calls st @ [c]\<rparr>"

section \<open>Startup and sign-in (lines 24-68)\<close>

definition initEffect :: "environment \<Rightarrow> state \<Rightarrow> state" where
  "initEffect env st =
     (case (firebase_config env, app_id env) of
        (Some config, Some _) \<Rightarrow>
          (case initializeApp env config of
             Inr app \<Rightarrow>
               let firestoreDb = getFirestore app;
                   firebaseAuth = getAuth app;
                   st1 = st\<lparr>db := Some firestoreDb, auth := Some firebaseAuth\<rparr>
               in (issue (OnAuthStateChanged firebaseAuth) st1)\<lparr>authListener := Some firebaseAuth\<rparr>
           | Inl error \<Rightarrow> console_error ''Failed to initialize Firebase:'' (Some error) st)
      | _ \<Rightarrow> (console_error ''Firebase config or app ID not found.'' None st)\<lparr>loading := False\<rparr>)"

text \<open>
  The listener of lines 41-57, to its first \<open>await\<close>. Nothing follows the \<open>await\<close>, and
  nothing catches around it: the promise of the listener settles as the sign-in does.
\<close>

definition authStateChanged :: "environment \<Rightarrow> auth_service \<Rightarrow> user option \<Rightarrow> state \<Rightarrow> async \<times> state" where
  "authStateChanged env firebaseAuth usr st =
     (case usr of
        Some u \<Rightarrow> (Settles Fulfilled, st\<lparr>userId := Some (uid u), isAuthReady := True, loading := False\<rparr>)
      | None \<Rightarrow>
          (case initial_auth_token env of
             Some token \<Rightarrow> (Awaits AwaitSignIn, issue (SignInWithCustomToken firebaseAuth token) st)
           | None \<Rightarrow> (Awaits AwaitSignIn, issue (SignInAnonymously firebaseAuth) st)))"

definition authStateChanged_resume :: "js_error option \<Rightarrow> state \<Rightarrow> promise \<times> state" where
  "authStateChanged_resume outcome st =
     (case outcome of None \<Rightarrow> (Fulfilled, st) | Some e \<Rightarrow> (Rejected e, st))"

section \<open>The live subscription (lines 71-100)\<close>

text \<open>
  \<open>Array.prototype.sort\<close> with a comparator: stable, an element goes after another when
  the comparator is positive. The engine's algorithm is not fixed by the language; with a
  consistent comparator every stable sort returns the list computed here.
\<close>

fun js_insert :: "('a \<Rightarrow> 'a \<Rightarrow> int) \<Rightarrow> 'a \<Rightarrow> 'a list \<Rightarrow> 'a list" where
  "js_insert cmp x [] = [x]"
| "js_insert cmp x (y # ys) = (if cmp x y > 0 then y # js_insert cmp x ys else x # y # ys)"

definition js_sort :: "('a \<Rightarrow> 'a \<Rightarrow> int) \<Rightarrow> 'a list \<Rightarrow> 'a list" where
  "js_sort cmp xs = foldr (js_insert cmp) xs []"

definition productOf :: "document \<Rightarrow> product" where
  "productOf doc =
     \<lparr>name = name (doc_data doc), timestamp = timestamp (doc_data doc),
      addedBy = addedBy (doc_data doc), pid = doc_id doc\<rparr>"

definition onSnapshot_next :: "document list \<Rightarrow> state \<Rightarrow> state" where
  "onSnapshot_next snapshot st =
     (let productList = foldl (\<lambda>acc doc. acc @ [productOf doc]) [] snapshot;
          productList = js_sort (\<lambda>a b. timestamp a - timestamp b) productList
      in st\<lparr>products := productList, loading := False\<rparr>)"

definition onSnapshot_error :: "js_error \<Rightarrow> state \<Rightarrow> state" where
  "onSnapshot_error error st =
     (console_error ''Error getting real-time updates:'' (Some error) st)\<lparr>loading := False\<rparr>"

definition subscriptionEffect :: "environment \<Rightarrow> state \<Rightarrow> state" where
  "subscriptionEffect env st =
     (case db st of
        Some d \<Rightarrow>
          if isAuthReady st then
            let st1 = st\<lparr>loading := True\<rparr>;
                appId = (case app_id env of Some a \<Rightarrow> a | None \<Rightarrow> ''default-app-id'');
                collectionPath = ''/artifacts/'' @ appId @ ''/public/data/bakeryOrders''
            in (issue (OnSnapshot d collectionPath) st1)\<lparr>subscription := Some (d, collectionPath)\<rparr>
          else st
      | None \<Rightarrow> st)"

section \<open>The handlers (lines 103-145)\<close>

text \<open>
  Each handler is given in two parts: the run to the \<open>await\<close> (or to the early
  \<open>return\<close>), and the rest once the awaited promise has settled, \<open>None\<close> for resolved
  and \<open>Some e\<close> for rejected with \<open>e\<close>. \<open>now\<close> is the value of \<open>Date.now()\<close>.
  \<open>collection\<close> and \<open>doc\<close> only build a reference from the path and are taken to
  accept it; were one of them to throw, the \<open>catch\<close> would receive the error as it
  receives a rejection.
\<close>

definition handleAddProduct :: "environment \<Rightarrow> bakery_item \<Rightarrow> int \<Rightarrow> state \<Rightarrow> async \<times> state" where
  "handleAddProduct env product now st =
     (case db st of
        Some d \<Rightarrow>
          if \<not> isAuthReady st then
            (Settles Fulfilled, console_error ''Database not ready or not authenticated.'' None st)
          else
            let st1 = st\<lparr>loading := True\<rparr>;
                appId = (case app_id env of Some a \<Rightarrow> a | None \<Rightarrow> ''default-app-id'');
                collectionPath = ''/artifacts/'' @ appId @ ''/public/data/bakeryOrders''
            in (Awaits AwaitAddDoc,
                issue (AddDoc d collectionPath
                  \<lparr>name = item_name product, timestamp = now, addedBy = userId st\<rparr>) st1)
      | None \<Rightarrow>
          (Settles Fulfilled, console_error ''Database not ready or not authenticated.'' None st))"

definition handleAddProduct_resume :: "js_error option \<Rightarrow> state \<Rightarrow> promise \<times> state" where
  "handleAddProduct_resume outcome st =
     (case outcome of
        None \<Rightarrow> (Fulfilled, st\<lparr>loading := False\<rparr>)
      | Some e \<Rightarrow> (Fulfilled, (console_error ''Error adding document: '' (Some e) st)\<lparr>loading := False\<rparr>))"

definition handleRemoveProduct :: "environment \<Rightarrow> string \<Rightarrow> state \<Rightarrow> async \<times> state" where
  "handleRemoveProduct env ident st =
     (case db st of
        Some d \<Rightarrow>
          if \<not> isAuthReady st then
            (Settles Fulfilled, console_error ''Database not ready or not authenticated.'' None st)
          else
            let st1 = st\<lparr>loading := True\<rparr>;
                appId = (case app_id env of Some a \<Rightarrow> a | None \<Rightarrow> ''default-app-id'');
                collectionPath = ''/artifacts/'' @ appId @ ''/public/data/bakeryOrders''
            in (Awaits AwaitDeleteDoc, issue (DeleteDoc d collectionPath ident) st1)
      | None \<Rightarrow>
          (Settles Fulfilled, console_error ''Database not ready or not authenticated.'' None st))"

definition handleRemoveProduct_resume :: "js_error option \<Rightarrow> state \<Rightarrow> promise \<times> state" where
  "handleRemoveProduct_resume outcome st =
     (case outcome of
        None \<Rightarrow> (Fulfilled, st\<lparr>loading := False\<rparr>)
      | Some e \<Rightarrow> (Fulfilled, (console_error ''Error removing document: '' (Some e) st)\<lparr>loading := False\<rparr>))"

section \<open>Rendering (lines 148-204)\<close>

text \<open>
  The rendered tree: tag, the attributes that carry data (\<open>key\<close>, \<open>aria-label\<close>), the
  \<open>onClick\<close> handler and the children. Styling (\<open>className\<close>, the drawing inside the
  \<open>svg\<close>) is left out.
\<close>

datatype action = AddClick bakery_item | RemoveClick string

datatype element =
    Text string
  | Element string "(string \<times> string) list" "action option" "element list"

fun children :: "element \<Rightarrow> element list" where
  "children (Text _) = []"
| "children (Element _ _ _ cs) = cs"

definition productRow :: "product \<Rightarrow> element" where
  "productRow product =
     Element ''div'' [(''key'', pid product)] None
       [Element ''span'' [] None [Text (name product)],
        Element ''button'' [(''aria-label'', ''Remove '' @ name product)]
          (Some (RemoveClick (pid product)))
          [Element ''svg'' [] None [Element ''path'' [] None []]]]"

definition productGrid :: "product list \<Rightarrow> element" where
  "productGrid ps =
     Element ''div'' [] None
       (if length ps = 0
        then [Element ''p'' [] None [Text ''No items in the list. Add some!'']]
        else map productRow ps)"

definition itemButton :: "bakery_item \<Rightarrow> element" where
  "itemButton item =
     Element ''button'' [(''key'', item_id item)] (Some (AddClick item)) [Text (item_name item)]"

definition render :: "state \<Rightarrow> element" where
  "render st =
     Element ''div'' [] None
       ((if loading st
         then [Element ''div'' [] None [Element ''div'' [] None [Text ''Loading...'']]]
         else []) @
        [Element ''div'' [] None
           [Element ''div'' [] None
              [Element ''h1'' [] None [Text ''Live Bakery Orders''],
               Element ''p'' [] None
                 [Text ''Click a button on the right to add an item to the list. Use the **X** to remove it. Your User ID: '',
                  Text (case userId st of Some u \<Rightarrow> u | None \<Rightarrow> [])],
               productGrid (products st)]],
         Element ''div'' [] None
           [Element ''h2'' [] None [Text ''Our Delicious Products''],
            Element ''div'' [] None (map itemButton bakeryItems)]])"

fun clickable :: "element \<Rightarrow> action list" where
  "clickable (Text _) = []"
| "clickable (Element _ _ onClick cs) =
     (case onClick of Some a \<Rightarrow> [a] | None \<Rightarrow> []) @ concat (map clickable cs)"

section \<open>The component as a reactive system\<close>

text \<open>
  What can happen to the component: it is mounted, in its initial state (the mount effect
  of lines 24-68 runs; the subscription effect runs too and does nothing, as
  \<open>isAuthReady\<close> is false); the identity service reports the session (\<open>null\<close> when
  signed out); the subscription delivers a snapshot or an error; the user activates a
  rendered control (with the clock read at that moment); an awaited promise settles.
  \<open>step\<close> is \<open>None\<close> for an event that cannot occur in the state: no listener is
  registered for it, the control is not rendered, or no such promise is awaited.
  Unmounting (the cleanups of lines 60 and 98) is outside the model.
\<close>

datatype event =
    Mount
  | AuthStateChanged "user option"
  | Snapshot "document list"
  | SnapshotError js_error
  | Click action int
  | Settled pending "js_error option"

text \<open>A promise nobody holds: a fulfilment is dropped, a rejection is unhandled.\<close>

definition settle :: "promise \<times> state \<Rightarrow> state" where
  "settle r = (case r of (Fulfilled, st) \<Rightarrow> st
                       | (Rejected e, st) \<Rightarrow> st\<lparr>unhandled := unhandled st @ [e]\<rparr>)"

definition suspend :: "async \<times> state \<Rightarrow> state" where
  "suspend r = (case r of (Settles p, st) \<Rightarrow> settle (p, st)
                        | (Awaits w, st) \<Rightarrow> st\<lparr>inflight := inflight st @ [w]\<rparr>)"

text \<open>
  After an event React renders again and runs the subscription effect when one of its
  dependencies \<open>[isAuthReady, db]\<close> has changed, its previous cleanup first.
\<close>

definition rerender :: "environment \<Rightarrow> state \<Rightarrow> state \<Rightarrow> state" where
  "rerender env old new =
     (if isAuthReady new = isAuthReady old \<and> db new = db old then new
      else subscriptionEffect env (new\<lparr>subscription := None\<rparr>))"

fun step :: "environment \<Rightarrow> event \<Rightarrow> state \<Rightarrow> state option" where
  "step env Mount st =
     (if st = initial
      then Some (rerender env st (initEffect env (st\<lparr>mounted := True\<rparr>)))
      else None)"
| "step env (AuthStateChanged usr) st =
     (case authListener st of
        None \<Rightarrow> None
      | Some firebaseAuth \<Rightarrow>
          Some (rerender env st (suspend (authStateChanged env firebaseAuth usr st))))"
| "step env (Snapshot snapshot) st =
     (case subscription st of
        None \<Rightarrow> None
      | Some _ \<Rightarrow> Some (onSnapshot_next snapshot st))"
| "step env (SnapshotError error) st =
     (case subscription st of
        None \<Rightarrow> None
      | Some _ \<Rightarrow> Some (onSnapshot_error error st))"
| "step env (Click a now) st =
     (if mounted st \<and> a \<in> set (clickable (render st))
      then Some (suspend (case a of
                   AddClick item \<Rightarrow> handleAddProduct env item now st
                 | RemoveClick ident \<Rightarrow> handleRemoveProduct env ident st))
      else None)"
| "step env (Settled w outcome) st =
     (if w \<in> set (inflight st)
      then let st1 = st\<lparr>inflight := remove1 w (inflight st)\<rparr>
           in Some (settle (case w of
                      AwaitSignIn \<Rightarrow> authStateChanged_resume outcome st1
                    | AwaitAddDoc \<Rightarrow> handleAddProduct_resume outcome st1
                    | AwaitDeleteDoc \<Rightarrow> handleRemoveProduct_resume outcome st1))
      else None)"

fun run :: "environment \<Rightarrow> event list \<Rightarrow> state \<Rightarrow> state option" where
  "run env [] st = Some st"
| "run env (e # es) st = (case step env e st of None \<Rightarrow> None | Some st' \<Rightarrow> run env es st')"

section \<open>Sequences of inserts and example inputs\<close>

text \<open>
  The order items written by a list of calls, and a sequence of invocations of the insert
  handler, each with the clock it read.
\<close>

definition added :: "call list \<Rightarrow> order_fields list" where
  "added cs = concat (map (\<lambda>c. case c of AddDoc _ _ data \<Rightarrow> [data] | _ \<Rightarrow> []) cs)"

fun insertAll :: "environment \<Rightarrow> (bakery_item \<times> int) list \<Rightarrow> state \<Rightarrow> state" where
  "insertAll env [] st = st"
| "insertAll env ((item, now) # rest) st = insertAll env rest (suspend (handleAddProduct env item now st))"

text \<open>
  Concrete inputs: two entries of the catalogue, a hosting page that supplies a
  configuration and the deployment identifier \<open>app1\<close> and no token, and the state of the
  component once it has signed in as \<open>u1\<close> and received its first, empty snapshot.
\<close>

definition sausageRoll :: bakery_item where
  "sausageRoll = \<lparr>item_id = ''sausageRoll'', item_name = ''Sausage Roll''\<rparr>"

definition spinachRoll :: bakery_item where
  "spinachRoll = \<lparr>item_id = ''spinachRoll'', item_name = ''Spinach Roll''\<rparr>"

definition exampleEnv :: environment where
  "exampleEnv = \<lparr>firebase_config = Some ''{}'', app_id = Some ''app1'',
     initial_auth_token = None, initializeApp = (\<lambda>config. Inr (FirebaseApp config))\<rparr>"

definition readyState :: state where
  "readyState = \<lparr>products = [], db = Some (Firestore (FirebaseApp ''{}'')),
     auth = Some (Auth (FirebaseApp ''{}'')), userId = Some ''u1'', isAuthReady = True,
     loading = False, console = [],
     calls = [OnAuthStateChanged (Auth (FirebaseApp ''{}'')),
              OnSnapshot (Firestore (FirebaseApp ''{}'')) ''/artifacts/app1/public/data/bakeryOrders''],
     authListener = Some (Auth (FirebaseApp ''{}'')),
     subscription = Some (Firestore (FirebaseApp ''{}''), ''/artifacts/app1/public/data/bakeryOrders''),
     inflight = [], unhandled = [], mounted = True\<rparr>"

text \<open>The same component right after mounting, before any session is reported.\<close>

definition unsignedState :: state where
  "unsignedState = \<lparr>products = [], db = Some (Firestore (FirebaseApp ''{}'')),
     auth = Some (Auth (FirebaseApp ''{}'')), userId = None, isAuthReady = False,
     loading = True, console = [],
     calls = [OnAuthStateChanged (Auth (FirebaseApp ''{}''))],
     authListener = Some (Auth (FirebaseApp ''{}'')), subscription = None,
     inflight = [], unhandled = [], mounted = True\<rparr>"

section \<open>Vocabulary of the properties\<close>

text \<open>The collection path a call to the data service addresses, if it is one.\<close>

fun addressed :: "call \<Rightarrow> string option" where
  "addressed (OnSnapshot _ path) = Some path"
| "addressed (AddDoc _ path _) = Some path"
| "addressed (DeleteDoc _ path _) = Some path"
| "addressed _ = None"

text \<open>
  The path all three operations compose (lines 76-77, 111-112 and 136-137), and the
  path as the specification words it: the deployment identifier followed by
  \<open>/public/data/bakeryOrders\<close>.
\<close>

definition collectionPathOf :: "environment \<Rightarrow> string" where
  "collectionPathOf env =
     ''/artifacts/'' @ (case app_id env of Some a \<Rightarrow> a | None \<Rightarrow> ''default-app-id'') @
     ''/public/data/bakeryOrders''"

definition spec_path :: "string \<Rightarrow> string" where
  "spec_path deploymentId = deploymentId @ ''/public/data/bakeryOrders''"

definition well_addressed :: "environment \<Rightarrow> call \<Rightarrow> bool" where
  "well_addressed env c = (case addressed c of None \<Rightarrow> True | Some path \<Rightarrow> path = collectionPathOf env)"

text \<open>Every element of a rendered tree, the tree itself first.\<close>

fun subtrees :: "element \<Rightarrow> element list" where
  "subtrees (Text s) = [Text s]"
| "subtrees (Element t as c cs) = Element t as c cs # concat (map subtrees cs)"

text \<open>
  Events that leave the loading flag alone or set it: a click, a report that the session
  is signed out, the settling of a sign-in. \<open>awaited\<close> is the promise a click's handler
  waits for.
\<close>

fun quiet :: "event \<Rightarrow> bool" where
  "quiet (Click _ _) = True"
| "quiet (AuthStateChanged None) = True"
| "quiet (Settled AwaitSignIn _) = True"
| "quiet _ = False"

fun awaited :: "action \<Rightarrow> pending" where
  "awaited (AddClick _) = AwaitAddDoc"
| "awaited (RemoveClick _) = AwaitDeleteDoc"

text \<open>The component after a start without its configuration.\<close>

definition inert :: "state \<Rightarrow> bool" where
  "inert st \<longleftrightarrow>
     db st = None \<and> auth st = None \<and> \<not> isAuthReady st \<and> \<not> loading st \<and> userId st = None \<and>
     products st = [] \<and> calls st = [] \<and> authListener st = None \<and> subscription st = None \<and>
     inflight st = [] \<and> unhandled st = [] \<and> mounted st \<and>
     take 1 (console st) = [(''Firebase config or app ID not found.'', None)]"

section \<open>Ordering of the mirrored list\<close>

lemma foldl_push: "foldl (\<lambda>acc doc. acc @ [f doc]) acc0 xs = acc0 @ map f xs"
  by (induction xs arbitrary: acc0) simp_all

lemma js_insert_timestamp:
  "js_insert (\<lambda>a b. timestamp a - timestamp b) x xs = insort_key timestamp x xs"
  by (induction xs) simp_all

lemma js_sort_timestamp:
  "js_sort (\<lambda>a b. timestamp a - timestamp b) xs = sort_key timestamp xs"
  by (induction xs) (simp_all add: js_sort_def js_insert_timestamp)

lemma products_onSnapshot_next:
  "products (onSnapshot_next snapshot st) = sort_key timestamp (map productOf snapshot)"
  by (simp add: onSnapshot_next_def Let_def foldl_push js_sort_timestamp)

lemma added_append: "added (xs @ ys) = added xs @ added ys"
  by (simp add: added_def)

lemma map_insort_key:
  assumes "\<And>x. k2 (f x) = k1 x"
  shows "map f (insort_key k1 x xs) = insort_key k2 (f x) (map f xs)"
  by (induction xs) (simp_all add: assms)

lemma map_sort_key:
  assumes "\<And>x. k2 (f x) = k1 x"
  shows "map f (sort_key k1 xs) = sort_key k2 (map f xs)"
  using assms by (induction xs) (simp_all add: map_insort_key [where ?k2.0 = k2])

lemma truncate_productOf: "order_fields.truncate (productOf doc) = doc_data doc"
  by (simp add: productOf_def order_fields.truncate_def)

lemma timestamp_productOf: "timestamp (productOf doc) = timestamp (doc_data doc)"
  by (simp add: productOf_def)

lemma truncate_products:
  "map order_fields.truncate (products (onSnapshot_next snapshot st)) =
     sort_key timestamp (map doc_data snapshot)"
proof -
  have "map order_fields.truncate (sort_key timestamp (map productOf snapshot)) =
          sort_key timestamp (map order_fields.truncate (map productOf snapshot))"
    by (rule map_sort_key) (simp add: order_fields.truncate_def)
  then show ?thesis
    by (simp add: products_onSnapshot_next truncate_productOf o_def)
qed

lemma handleAddProduct_ready:
  assumes "db st = Some d" "isAuthReady st"
  shows "suspend (handleAddProduct env item now st) =
           st\<lparr>loading := True,
              calls := calls st @ [AddDoc d (''/artifacts/'' @ (case app_id env of Some a \<Rightarrow> a | None \<Rightarrow> ''default-app-id'') @ ''/public/data/bakeryOrders'')
                 \<lparr>name = item_name item, timestamp = now, addedBy = userId st\<rparr>],
              inflight := inflight st @ [AwaitAddDoc]\<rparr>"
  using assms by (simp add: handleAddProduct_def suspend_def issue_def Let_def)

lemma added_insertAll:
  assumes "db st = Some d" "isAuthReady st"
  shows "added (calls (insertAll env inserts st)) =
           added (calls st) @
           map (\<lambda>(item, now). \<lparr>name = item_name item, timestamp = now, addedBy = userId st\<rparr>) inserts"
  using assms
proof (induction inserts arbitrary: st)
  case Nil
  then show ?case by simp
next
  case (Cons a inserts st)
  obtain item now where a: "a = (item, now)" by (cases a)
  let ?st = "suspend (handleAddProduct env item now st)"
  have "added (calls (insertAll env inserts ?st)) = added (calls ?st) @
          map (\<lambda>(item, now). \<lparr>name = item_name item, timestamp = now, addedBy = userId ?st\<rparr>) inserts"
    by (rule Cons.IH) (simp_all add: handleAddProduct_ready [OF Cons.prems] Cons.prems)
  then show ?case
    by (simp add: a handleAddProduct_ready [OF Cons.prems] added_append added_def)
qed

lemma sort_key_distinct_perm:
  assumes "mset xs = mset ys" "distinct (map k ys)"
  shows "sort_key k xs = sort_key k ys"
proof (rule sort_key_eq_sort_key [OF assms(1)])
  have "set xs = set ys" using assms(1) by (rule mset_eq_setD)
  moreover have "inj_on k (set ys)" using assms(2) by (simp add: distinct_map)
  ultimately show "inj_on k (set xs)" by simp
qed

lemma readyState_reached:
  "run exampleEnv [Mount, AuthStateChanged (Some (User ''u1'')), Snapshot []] initial = Some readyState"
  by (simp add: exampleEnv_def readyState_def initial_def initEffect_def rerender_def
      subscriptionEffect_def authStateChanged_def suspend_def settle_def issue_def getAuth_def
      getFirestore_def onSnapshot_next_def js_sort_def Let_def)

text \<open>
  Claim C1. Whatever snapshot the subscription delivers, the mirrored list (which the grid
  renders row by row, in order) is the stable sort of the snapshot's documents by
  \<open>timestamp\<close>, ascending. In particular: after any sequence of inserts with distinct
  clock readings into a collection that held no order before, a snapshot holding exactly
  the written orders (in any order, under any identifiers) is mirrored as the written
  orders by ascending timestamp.
\<close>

theorem snapshot_sorted_by_timestamp:
  "products (onSnapshot_next snapshot st) = sort_key timestamp (map productOf snapshot) \<and>
   sorted (map timestamp (products (onSnapshot_next snapshot st))) \<and>
   mset (products (onSnapshot_next snapshot st)) = mset (map productOf snapshot) \<and>
   (snapshot \<noteq> [] \<longrightarrow>
      children (productGrid (products (onSnapshot_next snapshot st))) =
        map productRow (sort_key timestamp (map productOf snapshot))) \<and>
   (db st0 \<noteq> None \<and> isAuthReady st0 \<and> added (calls st0) = [] \<and> distinct (map snd inserts) \<and>
    mset (map doc_data snapshot) = mset (added (calls (insertAll env inserts st0)))
    \<longrightarrow> map order_fields.truncate (products (onSnapshot_next snapshot st)) =
          sort_key timestamp (added (calls (insertAll env inserts st0))) \<and>
        map timestamp (products (onSnapshot_next snapshot st)) = sort (map snd inserts))"
proof (intro conjI impI)
  show p: "products (onSnapshot_next snapshot st) = sort_key timestamp (map productOf snapshot)"
    by (rule products_onSnapshot_next)
  show "sorted (map timestamp (products (onSnapshot_next snapshot st)))"
    by (simp add: p)
  show "mset (products (onSnapshot_next snapshot st)) = mset (map productOf snapshot)"
    by (simp add: p)
  show "children (productGrid (products (onSnapshot_next snapshot st))) =
        map productRow (sort_key timestamp (map productOf snapshot))" if "snapshot \<noteq> []"
    using that by (simp add: p productGrid_def)
next
  assume h: "db st0 \<noteq> None \<and> isAuthReady st0 \<and> added (calls st0) = [] \<and> distinct (map snd inserts) \<and>
    mset (map doc_data snapshot) = mset (added (calls (insertAll env inserts st0)))"
  let ?fs = "added (calls (insertAll env inserts st0))"
  from h obtain d where d: "db st0 = Some d" by auto
  have fs: "?fs = map (\<lambda>(item, now). \<lparr>name = item_name item, timestamp = now, addedBy = userId st0\<rparr>) inserts"
    using h by (simp add: added_insertAll [OF d])
  have ts: "map timestamp ?fs = map snd inserts"
    by (simp add: fs split_def o_def)
  have dist: "distinct (map timestamp ?fs)"
    using h ts by simp
  have perm: "mset (map doc_data snapshot) = mset ?fs" using h by simp
  show 1: "map order_fields.truncate (products (onSnapshot_next snapshot st)) = sort_key timestamp ?fs"
    unfolding truncate_products by (rule sort_key_distinct_perm [OF perm dist])
  have "map timestamp (products (onSnapshot_next snapshot st)) =
          map timestamp (map order_fields.truncate (products (onSnapshot_next snapshot st)))"
    by (simp add: order_fields.truncate_def o_def)
  also have "\<dots> = map timestamp (sort_key timestamp ?fs)" by (simp only: 1)
  also have "\<dots> = sort (map timestamp ?fs)" by (rule map_sort_key) simp
  finally show "map timestamp (products (onSnapshot_next snapshot st)) = sort (map snd inserts)"
    by (simp only: ts)
qed

theorem snapshot_sorted_by_timestamp_witness:
  "db readyState \<noteq> None \<and> isAuthReady readyState \<and> added (calls readyState) = [] \<and>
   distinct (map snd [(spinachRoll, 20), (sausageRoll, 10 :: int)]) \<and>
   mset (map doc_data
     [\<lparr>doc_id = ''b'', doc_data = \<lparr>name = ''Spinach Roll'', timestamp = 20, addedBy = Some ''u1''\<rparr>\<rparr>,
      \<lparr>doc_id = ''a'', doc_data = \<lparr>name = ''Sausage Roll'', timestamp = 10, addedBy = Some ''u1''\<rparr>\<rparr>]) =
     mset (added (calls (insertAll exampleEnv [(spinachRoll, 20), (sausageRoll, 10)] readyState))) \<and>
   map order_fields.truncate (products (onSnapshot_next
     [\<lparr>doc_id = ''b'', doc_data = \<lparr>name = ''Spinach Roll'', timestamp = 20, addedBy = Some ''u1''\<rparr>\<rparr>,
      \<lparr>doc_id = ''a'', doc_data = \<lparr>name = ''Sausage Roll'', timestamp = 10, addedBy = Some ''u1''\<rparr>\<rparr>]
     readyState)) =
     [\<lparr>name = ''Sausage Roll'', timestamp = 10, addedBy = Some ''u1''\<rparr>,
      \<lparr>name = ''Spinach Roll'', timestamp = 20, addedBy = Some ''u1''\<rparr>] \<and>
   map timestamp (products (onSnapshot_next
     [\<lparr>doc_id = ''b'', doc_data = \<lparr>name = ''Spinach Roll'', timestamp = 20, addedBy = Some ''u1''\<rparr>\<rparr>,
      \<lparr>doc_id = ''a'', doc_data = \<lparr>name = ''Sausage Roll'', timestamp = 10, addedBy = Some ''u1''\<rparr>\<rparr>]
     readyState)) = [10, 20]"
proof -
  let ?snapshot = "[\<lparr>doc_id = ''b'', doc_data = \<lparr>name = ''Spinach Roll'', timestamp = 20, addedBy = Some ''u1''\<rparr>\<rparr>,
      \<lparr>doc_id = ''a'', doc_data = \<lparr>name = ''Sausage Roll'', timestamp = 10, addedBy = Some ''u1''\<rparr>\<rparr>]"
  let ?inserts = "[(spinachRoll, 20), (sausageRoll, 10 :: int)]"
  have w: "added (calls (insertAll exampleEnv ?inserts readyState)) =
      [\<lparr>name = ''Spinach Roll'', timestamp = 20, addedBy = Some ''u1''\<rparr>,
       \<lparr>name = ''Sausage Roll'', timestamp = 10, addedBy = Some ''u1''\<rparr>]"
    by (simp add: readyState_def exampleEnv_def sausageRoll_def spinachRoll_def added_def
        handleAddProduct_def suspend_def issue_def Let_def)
  have h: "db readyState \<noteq> None \<and> isAuthReady readyState \<and> added (calls readyState) = [] \<and>
      distinct (map snd ?inserts) \<and>
      mset (map doc_data ?snapshot) = mset (added (calls (insertAll exampleEnv ?inserts readyState)))"
    unfolding w by (simp add: readyState_def added_def)
  from snapshot_sorted_by_timestamp [of ?snapshot readyState readyState ?inserts exampleEnv] h
  have "map order_fields.truncate (products (onSnapshot_next ?snapshot readyState)) =
          sort_key timestamp (added (calls (insertAll exampleEnv ?inserts readyState)))"
    and "map timestamp (products (onSnapshot_next ?snapshot readyState)) = sort (map snd ?inserts)"
    by blast+
  then show ?thesis using h unfolding w by simp
qed

section \<open>The handlers, equation by equation\<close>

lemma handleAddProduct_not_ready:
  "db st = None \<or> \<not> isAuthReady st \<Longrightarrow>
   handleAddProduct env item now st =
     (Settles Fulfilled, st\<lparr>console := console st @ [(''Database not ready or not authenticated.'', None)]\<rparr>)"
  by (auto simp: handleAddProduct_def console_error_def split: option.splits)

lemma handleRemoveProduct_not_ready:
  "db st = None \<or> \<not> isAuthReady st \<Longrightarrow>
   handleRemoveProduct env ident st =
     (Settles Fulfilled, st\<lparr>console := console st @ [(''Database not ready or not authenticated.'', None)]\<rparr>)"
  by (auto simp: handleRemoveProduct_def console_error_def split: option.splits)

lemma handleAddProduct_when_ready:
  "db st = Some d \<Longrightarrow> isAuthReady st \<Longrightarrow>
   handleAddProduct env item now st =
     (Awaits AwaitAddDoc,
      st\<lparr>loading := True,
         calls := calls st @
           [AddDoc d (''/artifacts/'' @ (case app_id env of Some a \<Rightarrow> a | None \<Rightarrow> ''default-app-id'') @ ''/public/data/bakeryOrders'')
              \<lparr>name = item_name item, timestamp = now, addedBy = userId st\<rparr>]\<rparr>)"
  by (simp add: handleAddProduct_def issue_def Let_def)

lemma handleRemoveProduct_when_ready:
  "db st = Some d \<Longrightarrow> isAuthReady st \<Longrightarrow>
   handleRemoveProduct env ident st =
     (Awaits AwaitDeleteDoc,
      st\<lparr>loading := True,
         calls := calls st @
           [DeleteDoc d (''/artifacts/'' @ (case app_id env of Some a \<Rightarrow> a | None \<Rightarrow> ''default-app-id'') @ ''/public/data/bakeryOrders'') ident]\<rparr>)"
  by (simp add: handleRemoveProduct_def issue_def Let_def)

lemma subscriptionEffect_when_ready:
  "db st = Some d \<Longrightarrow> isAuthReady st \<Longrightarrow>
   subscriptionEffect env st =
     st\<lparr>loading := True,
        calls := calls st @
          [OnSnapshot d (''/artifacts/'' @ (case app_id env of Some a \<Rightarrow> a | None \<Rightarrow> ''default-app-id'') @ ''/public/data/bakeryOrders'')],
        subscription := Some (d, ''/artifacts/'' @ (case app_id env of Some a \<Rightarrow> a | None \<Rightarrow> ''default-app-id'') @ ''/public/data/bakeryOrders'')\<rparr>"
  by (simp add: subscriptionEffect_def issue_def Let_def)

lemma handleAddProduct_resume_eq:
  "handleAddProduct_resume outcome st =
     (Fulfilled, st\<lparr>loading := False,
        console := console st @ (case outcome of None \<Rightarrow> [] | Some e \<Rightarrow> [(''Error adding document: '', Some e)])\<rparr>)"
  by (cases outcome) (simp_all add: handleAddProduct_resume_def console_error_def)

lemma handleRemoveProduct_resume_eq:
  "handleRemoveProduct_resume outcome st =
     (Fulfilled, st\<lparr>loading := False,
        console := console st @ (case outcome of None \<Rightarrow> [] | Some e \<Rightarrow> [(''Error removing document: '', Some e)])\<rparr>)"
  by (cases outcome) (simp_all add: handleRemoveProduct_resume_def console_error_def)

lemmas example_defs =
  exampleEnv_def readyState_def initial_def sausageRoll_def spinachRoll_def bakeryItems_def
  initEffect_def rerender_def subscriptionEffect_def authStateChanged_def
  authStateChanged_resume_def handleAddProduct_def handleAddProduct_resume_def
  handleRemoveProduct_def handleRemoveProduct_resume_def suspend_def settle_def issue_def
  console_error_def getAuth_def getFirestore_def onSnapshot_next_def onSnapshot_error_def
  js_sort_def productOf_def render_def productGrid_def productRow_def itemButton_def Let_def

lemma unsignedState_reached: "run exampleEnv [Mount] initial = Some unsignedState"
  by (simp add: unsignedState_def example_defs)

lemma run_Cons_Some:
  "run env (e # es) st = Some st' \<longleftrightarrow> (\<exists>st1. step env e st = Some st1 \<and> run env es st1 = Some st')"
  by (simp split: option.splits)

section \<open>The readiness guard\<close>

text \<open>
  Claim C2. Invoked while the database handle is absent or identity is not ready, insert
  and remove issue no call to the data service (the list of calls is unchanged, and the
  handler returns without awaiting anything) and write the precondition failure
  \<open>Database not ready or not authenticated.\<close> to the console.
\<close>

theorem not_ready_no_service_call:
  assumes "db st = None \<or> \<not> isAuthReady st"
  shows "fst (handleAddProduct env item now st) = Settles Fulfilled \<and>
         calls (snd (handleAddProduct env item now st)) = calls st \<and>
         console (snd (handleAddProduct env item now st)) =
           console st @ [(''Database not ready or not authenticated.'', None)] \<and>
         fst (handleRemoveProduct env ident st) = Settles Fulfilled \<and>
         calls (snd (handleRemoveProduct env ident st)) = calls st \<and>
         console (snd (handleRemoveProduct env ident st)) =
           console st @ [(''Database not ready or not authenticated.'', None)]"
  by (simp add: handleAddProduct_not_ready [OF assms] handleRemoveProduct_not_ready [OF assms])

theorem not_ready_no_service_call_witness:
  "\<not> isAuthReady unsignedState \<and>
   fst (handleAddProduct exampleEnv sausageRoll 5 unsignedState) = Settles Fulfilled \<and>
   calls (snd (handleAddProduct exampleEnv sausageRoll 5 unsignedState)) =
     [OnAuthStateChanged (Auth (FirebaseApp ''{}''))] \<and>
   console (snd (handleAddProduct exampleEnv sausageRoll 5 unsignedState)) =
     [(''Database not ready or not authenticated.'', None)] \<and>
   fst (handleRemoveProduct exampleEnv ''a'' unsignedState) = Settles Fulfilled \<and>
   calls (snd (handleRemoveProduct exampleEnv ''a'' unsignedState)) =
     [OnAuthStateChanged (Auth (FirebaseApp ''{}''))] \<and>
   console (snd (handleRemoveProduct exampleEnv ''a'' unsignedState)) =
     [(''Database not ready or not authenticated.'', None)]"
  using not_ready_no_service_call [of unsignedState exampleEnv sausageRoll 5 "''a''"]
  by (simp add: unsignedState_def)

text \<open>
  Claim C10. Invoked while the database handle is absent or identity is not ready, insert
  and remove return before any state update: the loading flag and the mirrored list are
  as they were, and so is everything else but the console.
\<close>

theorem not_ready_leaves_state:
  assumes "db st = None \<or> \<not> isAuthReady st"
  shows "loading (snd (handleAddProduct env item now st)) = loading st \<and>
         products (snd (handleAddProduct env item now st)) = products st \<and>
         snd (handleAddProduct env item now st) = st\<lparr>console := console (snd (handleAddProduct env item now st))\<rparr> \<and>
         loading (snd (handleRemoveProduct env ident st)) = loading st \<and>
         products (snd (handleRemoveProduct env ident st)) = products st \<and>
         snd (handleRemoveProduct env ident st) = st\<lparr>console := console (snd (handleRemoveProduct env ident st))\<rparr>"
  by (simp add: handleAddProduct_not_ready [OF assms] handleRemoveProduct_not_ready [OF assms])

theorem not_ready_leaves_state_witness:
  "\<not> isAuthReady unsignedState \<and>
   loading (snd (handleAddProduct exampleEnv sausageRoll 5 unsignedState)) = True \<and>
   products (snd (handleAddProduct exampleEnv sausageRoll 5 unsignedState)) = [] \<and>
   loading (snd (handleRemoveProduct exampleEnv ''a'' unsignedState)) = True \<and>
   products (snd (handleRemoveProduct exampleEnv ''a'' unsignedState)) = []"
  using not_ready_leaves_state [of unsignedState exampleEnv sausageRoll 5 "''a''"]
  by (simp add: unsignedState_def)

section \<open>Insert\<close>

text \<open>
  Claim C3 as stated asks insert to append one order on every call and to fail with a
  \<open>BackendWriteError\<close> when identity is not ready or the write is rejected. The code
  does neither: not ready, the handler issues no write and its promise is fulfilled; and
  after a rejected write the promise is fulfilled as well.
\<close>

theorem insert_never_fails_counterexample:
  "isAuthReady unsignedState = False \<and>
   fst (handleAddProduct exampleEnv sausageRoll 5 unsignedState) = Settles Fulfilled \<and>
   calls (snd (handleAddProduct exampleEnv sausageRoll 5 unsignedState)) = calls unsignedState \<and>
   fst (handleAddProduct_resume (Some ''permission-denied'')
          (snd (handleAddProduct exampleEnv sausageRoll 5 readyState))) = Fulfilled"
  by (simp add: handleAddProduct_def handleAddProduct_resume_def unsignedState_def
      console_error_def)

text \<open>
  Claim C3, amended. With the database handle present and identity ready, insert issues
  exactly one add-document call, whose fields are the name of the product, the clock
  reading and the current session identifier, and awaits it. Otherwise it issues none and
  logs the precondition failure. It never fails and never retries: whether the write
  resolves or is rejected, the rest of the handler issues no call, awaits nothing and
  fulfils its promise; a rejection is written to the console.
\<close>

theorem insert_issues_one_write_and_never_fails:
  "(db st = Some d \<and> isAuthReady st \<longrightarrow>
      fst (handleAddProduct env item now st) = Awaits AwaitAddDoc \<and>
      calls (snd (handleAddProduct env item now st)) =
        calls st @ [AddDoc d (''/artifacts/'' @ (case app_id env of Some a \<Rightarrow> a | None \<Rightarrow> ''default-app-id'') @ ''/public/data/bakeryOrders'')
                      \<lparr>name = item_name item, timestamp = now, addedBy = userId st\<rparr>]) \<and>
   (db st = None \<or> \<not> isAuthReady st \<longrightarrow>
      fst (handleAddProduct env item now st) = Settles Fulfilled \<and>
      calls (snd (handleAddProduct env item now st)) = calls st \<and>
      console (snd (handleAddProduct env item now st)) =
        console st @ [(''Database not ready or not authenticated.'', None)]) \<and>
   fst (handleAddProduct_resume outcome st) = Fulfilled \<and>
   calls (snd (handleAddProduct_resume outcome st)) = calls st \<and>
   inflight (snd (handleAddProduct_resume outcome st)) = inflight st \<and>
   console (snd (handleAddProduct_resume (Some e) st)) =
     console st @ [(''Error adding document: '', Some e)]"
  by (auto simp: handleAddProduct_not_ready handleAddProduct_when_ready handleAddProduct_resume_eq)

theorem insert_issues_one_write_and_never_fails_witness:
  "db readyState = Some (Firestore (FirebaseApp ''{}'')) \<and> isAuthReady readyState \<and>
   \<not> isAuthReady unsignedState \<and>
   fst (handleAddProduct exampleEnv sausageRoll 5 readyState) = Awaits AwaitAddDoc \<and>
   calls (snd (handleAddProduct exampleEnv sausageRoll 5 readyState)) =
     calls readyState @ [AddDoc (Firestore (FirebaseApp ''{}'')) ''/artifacts/app1/public/data/bakeryOrders''
        \<lparr>name = ''Sausage Roll'', timestamp = 5, addedBy = Some ''u1''\<rparr>] \<and>
   fst (handleAddProduct exampleEnv sausageRoll 5 unsignedState) = Settles Fulfilled \<and>
   calls (snd (handleAddProduct exampleEnv sausageRoll 5 unsignedState)) = calls unsignedState \<and>
   console (snd (handleAddProduct exampleEnv sausageRoll 5 unsignedState)) =
     [(''Database not ready or not authenticated.'', None)]"
  using insert_issues_one_write_and_never_fails [of readyState "Firestore (FirebaseApp ''{}'')" exampleEnv sausageRoll 5 None "''e''"]
    insert_issues_one_write_and_never_fails [of unsignedState "Firestore (FirebaseApp ''{}'')" exampleEnv sausageRoll 5 None "''e''"]
  by (simp add: readyState_def unsignedState_def exampleEnv_def sausageRoll_def)

section \<open>Remove\<close>

text \<open>
  Claim C9. Remove, invoked with an identifier that no item of the mirrored list carries,
  leaves the list (and so the rendered grid) unchanged and raises no unhandled error: its
  promise is fulfilled at once or awaits the delete, and is fulfilled however the delete
  settles.
\<close>

theorem remove_absent_keeps_list:
  assumes "ident \<notin> pid ` set (products st)"
  shows "products (snd (handleRemoveProduct env ident st)) = products st \<and>
         productGrid (products (suspend (handleRemoveProduct env ident st))) = productGrid (products st) \<and>
         unhandled (suspend (handleRemoveProduct env ident st)) = unhandled st \<and>
         (fst (handleRemoveProduct env ident st) = Settles Fulfilled \<or>
          fst (handleRemoveProduct env ident st) = Awaits AwaitDeleteDoc) \<and>
         fst (handleRemoveProduct_resume outcome st') = Fulfilled \<and>
         products (snd (handleRemoveProduct_resume outcome st')) = products st' \<and>
         unhandled (settle (handleRemoveProduct_resume outcome st')) = unhandled st'"
proof (cases "db st = None \<or> \<not> isAuthReady st")
  case True
  then show ?thesis
    by (simp add: handleRemoveProduct_not_ready handleRemoveProduct_resume_eq suspend_def settle_def)
next
  case False
  then obtain d where "db st = Some d" "isAuthReady st" by auto
  then show ?thesis
    by (simp add: handleRemoveProduct_when_ready handleRemoveProduct_resume_eq suspend_def settle_def)
qed

theorem remove_absent_keeps_list_witness:
  "''zz'' \<notin> pid ` set (products (readyState\<lparr>products :=
      [\<lparr>name = ''Sausage Roll'', timestamp = 10, addedBy = Some ''u1'', pid = ''a''\<rparr>]\<rparr>)) \<and>
   products (snd (handleRemoveProduct exampleEnv ''zz'' (readyState\<lparr>products :=
      [\<lparr>name = ''Sausage Roll'', timestamp = 10, addedBy = Some ''u1'', pid = ''a''\<rparr>]\<rparr>))) =
     [\<lparr>name = ''Sausage Roll'', timestamp = 10, addedBy = Some ''u1'', pid = ''a''\<rparr>] \<and>
   fst (handleRemoveProduct exampleEnv ''zz'' (readyState\<lparr>products :=
      [\<lparr>name = ''Sausage Roll'', timestamp = 10, addedBy = Some ''u1'', pid = ''a''\<rparr>]\<rparr>)) =
     Awaits AwaitDeleteDoc \<and>
   fst (handleRemoveProduct_resume (Some ''unavailable'') (readyState\<lparr>products :=
      [\<lparr>name = ''Sausage Roll'', timestamp = 10, addedBy = Some ''u1'', pid = ''a''\<rparr>]\<rparr>)) = Fulfilled"
  using remove_absent_keeps_list [of "''zz''" "readyState\<lparr>products :=
      [\<lparr>name = ''Sausage Roll'', timestamp = 10, addedBy = Some ''u1'', pid = ''a''\<rparr>]\<rparr>"
      exampleEnv "Some ''unavailable''" "readyState\<lparr>products :=
      [\<lparr>name = ''Sausage Roll'', timestamp = 10, addedBy = Some ''u1'', pid = ''a''\<rparr>]\<rparr>"]
  by (simp add: readyState_def handleRemoveProduct_def Let_def)

section \<open>Rendering\<close>

text \<open>
  Claim C8. The grid of the rendered page shows the one paragraph
  \<open>No items in the list. Add some!\<close> when the mirrored list is empty, and otherwise one
  row per item, in the order of the list.
\<close>

theorem empty_state_or_rows:
  "(products st = [] \<longrightarrow>
      children (productGrid (products st)) =
        [Element ''p'' [] None [Text ''No items in the list. Add some!'']]) \<and>
   (products st \<noteq> [] \<longrightarrow>
      children (productGrid (products st)) = map productRow (products st) \<and>
      length (children (productGrid (products st))) = length (products st)) \<and>
   productGrid (products st) \<in> set (subtrees (render st))"
  by (simp add: productGrid_def render_def)

theorem empty_state_or_rows_witness:
  "products initial = [] \<and>
   children (productGrid (products initial)) =
     [Element ''p'' [] None [Text ''No items in the list. Add some!'']] \<and>
   products (onSnapshot_next
     [\<lparr>doc_id = ''a'', doc_data = \<lparr>name = ''Sausage Roll'', timestamp = 10, addedBy = Some ''u1''\<rparr>\<rparr>]
     readyState) \<noteq> [] \<and>
   children (productGrid (products (onSnapshot_next
     [\<lparr>doc_id = ''a'', doc_data = \<lparr>name = ''Sausage Roll'', timestamp = 10, addedBy = Some ''u1''\<rparr>\<rparr>]
     readyState))) =
     [productRow \<lparr>name = ''Sausage Roll'', timestamp = 10, addedBy = Some ''u1'', pid = ''a''\<rparr>]"
  using empty_state_or_rows [of initial]
    empty_state_or_rows [of "onSnapshot_next
     [\<lparr>doc_id = ''a'', doc_data = \<lparr>name = ''Sausage Roll'', timestamp = 10, addedBy = Some ''u1''\<rparr>\<rparr>]
     readyState"]
  by (simp add: initial_def products_onSnapshot_next productOf_def)

section \<open>The collection path\<close>

lemma subscriptionEffect_calls:
  "list_all (well_addressed env) (calls st) \<Longrightarrow>
   list_all (well_addressed env) (calls (subscriptionEffect env st))"
  by (simp add: subscriptionEffect_def issue_def Let_def well_addressed_def collectionPathOf_def
      split: option.splits)

lemma rerender_calls:
  "list_all (well_addressed env) (calls new) \<Longrightarrow>
   list_all (well_addressed env) (calls (rerender env old new))"
  using subscriptionEffect_calls [of env "new\<lparr>subscription := None\<rparr>"]
  by (simp add: rerender_def)

lemma initEffect_calls:
  "list_all (well_addressed env) (calls st) \<Longrightarrow>
   list_all (well_addressed env) (calls (initEffect env st))"
  by (simp add: initEffect_def issue_def console_error_def Let_def well_addressed_def
      split: option.splits sum.splits)

lemma authStateChanged_calls:
  "list_all (well_addressed env) (calls st) \<Longrightarrow>
   list_all (well_addressed env) (calls (suspend (authStateChanged env a usr st)))"
  by (simp add: authStateChanged_def suspend_def settle_def issue_def well_addressed_def
      split: option.splits)

lemma handleAddProduct_calls:
  "list_all (well_addressed env) (calls st) \<Longrightarrow>
   list_all (well_addressed env) (calls (suspend (handleAddProduct env item now st)))"
  by (simp add: handleAddProduct_def suspend_def settle_def issue_def console_error_def Let_def
      well_addressed_def collectionPathOf_def split: option.splits)

lemma handleRemoveProduct_calls:
  "list_all (well_addressed env) (calls st) \<Longrightarrow>
   list_all (well_addressed env) (calls (suspend (handleRemoveProduct env ident st)))"
  by (simp add: handleRemoveProduct_def suspend_def settle_def issue_def console_error_def Let_def
      well_addressed_def collectionPathOf_def split: option.splits)

lemma settled_calls:
  "calls (settle (authStateChanged_resume outcome st)) = calls st"
  "calls (settle (handleAddProduct_resume outcome st)) = calls st"
  "calls (settle (handleRemoveProduct_resume outcome st)) = calls st"
  by (simp_all add: authStateChanged_resume_def handleAddProduct_resume_eq
      handleRemoveProduct_resume_eq settle_def split: option.splits)

lemma step_calls:
  assumes "list_all (well_addressed env) (calls st)" "step env e st = Some st'"
  shows "list_all (well_addressed env) (calls st')"
proof (cases e)
  case Mount
  with assms have "st' = rerender env st (initEffect env (st\<lparr>mounted := True\<rparr>))"
    by (auto split: if_splits)
  with assms(1) show ?thesis
    by (simp add: rerender_calls initEffect_calls)
next
  case (AuthStateChanged usr)
  with assms obtain a where "st' = rerender env st (suspend (authStateChanged env a usr st))"
    by (auto split: option.splits)
  with assms(1) show ?thesis
    by (simp add: rerender_calls authStateChanged_calls)
next
  case (Snapshot snapshot)
  with assms show ?thesis
    by (auto simp: onSnapshot_next_def Let_def split: option.splits)
next
  case (SnapshotError error)
  with assms show ?thesis
    by (auto simp: onSnapshot_error_def console_error_def split: option.splits)
next
  case (Click a now)
  with assms have "st' = suspend (case a of
                   AddClick item \<Rightarrow> handleAddProduct env item now st
                 | RemoveClick ident \<Rightarrow> handleRemoveProduct env ident st)"
    by (auto split: if_splits)
  with assms(1) show ?thesis
    by (cases a) (simp_all add: handleAddProduct_calls handleRemoveProduct_calls)
next
  case (Settled w outcome)
  with assms show ?thesis
    by (cases w) (auto simp: settled_calls Let_def split: if_splits)
qed

lemma run_calls:
  "list_all (well_addressed env) (calls st) \<Longrightarrow> run env evs st = Some st' \<Longrightarrow>
   list_all (well_addressed env) (calls st')"
proof (induction evs arbitrary: st)
  case Nil
  then show ?case by simp
next
  case (Cons e evs)
  from Cons.prems(2) obtain st1 where 1: "step env e st = Some st1" and 2: "run env evs st1 = Some st'"
    by (auto split: option.splits)
  from step_calls [OF Cons.prems(1) 1] 2 show ?case by (rule Cons.IH)
qed

text \<open>
  Claim C5 as stated gives the path as the deployment identifier followed by
  \<open>/public/data/bakeryOrders\<close>. The path the code composes starts with
  \<open>/artifacts/\<close>: for the deployment \<open>app1\<close> insert addresses
  \<open>/artifacts/app1/public/data/bakeryOrders\<close>.
\<close>

theorem path_has_artifacts_prefix_counterexample:
  "app_id exampleEnv = Some ''app1'' \<and>
   map addressed (calls (snd (handleAddProduct exampleEnv sausageRoll 5 readyState))) =
     [None, Some ''/artifacts/app1/public/data/bakeryOrders'',
      Some ''/artifacts/app1/public/data/bakeryOrders''] \<and>
   Some (spec_path ''app1'') \<notin>
     set (map addressed (calls (snd (handleAddProduct exampleEnv sausageRoll 5 readyState))))"
  by (simp add: handleAddProduct_def exampleEnv_def readyState_def issue_def Let_def spec_path_def)

text \<open>
  Claim C5, amended. Subscribe, insert and remove each address the collection at
  \<open>/artifacts/{deploymentId}/public/data/bakeryOrders\<close>, composed from the externally
  supplied deployment identifier (\<open>default-app-id\<close> in its place when it is undefined);
  and in every run of the component from its initial state, every call to the data service
  addresses that path.
\<close>

theorem operations_address_artifacts_path:
  "(db st = Some d \<and> isAuthReady st \<longrightarrow>
      calls (subscriptionEffect env st) = calls st @ [OnSnapshot d (collectionPathOf env)] \<and>
      calls (snd (handleAddProduct env item now st)) =
        calls st @ [AddDoc d (collectionPathOf env)
                      \<lparr>name = item_name item, timestamp = now, addedBy = userId st\<rparr>] \<and>
      calls (snd (handleRemoveProduct env ident st)) =
        calls st @ [DeleteDoc d (collectionPathOf env) ident]) \<and>
   (run env evs initial = Some st' \<longrightarrow>
      (\<forall>c \<in> set (calls st'). \<forall>path. addressed c = Some path \<longrightarrow> path = collectionPathOf env)) \<and>
   (app_id env = Some deploymentId \<longrightarrow>
      collectionPathOf env = ''/artifacts/'' @ deploymentId @ ''/public/data/bakeryOrders'')"
proof (intro conjI impI)
  assume "db st = Some d \<and> isAuthReady st"
  then have r: "db st = Some d" "isAuthReady st" by simp_all
  show "calls (subscriptionEffect env st) = calls st @ [OnSnapshot d (collectionPathOf env)]"
    by (simp add: subscriptionEffect_when_ready [OF r] collectionPathOf_def)
  show "calls (snd (handleAddProduct env item now st)) =
        calls st @ [AddDoc d (collectionPathOf env)
                      \<lparr>name = item_name item, timestamp = now, addedBy = userId st\<rparr>]"
    by (simp add: handleAddProduct_when_ready [OF r] collectionPathOf_def)
  show "calls (snd (handleRemoveProduct env ident st)) =
        calls st @ [DeleteDoc d (collectionPathOf env) ident]"
    by (simp add: handleRemoveProduct_when_ready [OF r] collectionPathOf_def)
next
  assume "run env evs initial = Some st'"
  then have "list_all (well_addressed env) (calls st')"
    by (rule run_calls [rotated]) (simp add: initial_def)
  then show "\<forall>c \<in> set (calls st'). \<forall>path. addressed c = Some path \<longrightarrow> path = collectionPathOf env"
    by (auto simp: list_all_iff well_addressed_def)
next
  assume "app_id env = Some deploymentId"
  then show "collectionPathOf env = ''/artifacts/'' @ deploymentId @ ''/public/data/bakeryOrders''"
    by (simp add: collectionPathOf_def)
qed

theorem operations_address_artifacts_path_witness:
  "db readyState = Some (Firestore (FirebaseApp ''{}'')) \<and> isAuthReady readyState \<and>
   app_id exampleEnv = Some ''app1'' \<and>
   calls (snd (handleRemoveProduct exampleEnv ''a'' readyState)) =
     calls readyState @
     [DeleteDoc (Firestore (FirebaseApp ''{}'')) ''/artifacts/app1/public/data/bakeryOrders'' ''a''] \<and>
   run exampleEnv [Mount, AuthStateChanged (Some (User ''u1'')), Snapshot []] initial = Some readyState \<and>
   OnSnapshot (Firestore (FirebaseApp ''{}'')) ''/artifacts/app1/public/data/bakeryOrders''
     \<in> set (calls readyState) \<and>
   collectionPathOf exampleEnv = ''/artifacts/app1/public/data/bakeryOrders''"
proof -
  have a: "app_id exampleEnv = Some ''app1''" by (simp add: exampleEnv_def)
  have r: "db readyState = Some (Firestore (FirebaseApp ''{}''))" "isAuthReady readyState"
    by (simp_all add: readyState_def)
  have m: "OnSnapshot (Firestore (FirebaseApp ''{}'')) ''/artifacts/app1/public/data/bakeryOrders''
     \<in> set (calls readyState)"
    by (simp add: readyState_def)
  from operations_address_artifacts_path [of readyState "Firestore (FirebaseApp ''{}'')" exampleEnv sausageRoll 5 "''a''"
      "[Mount, AuthStateChanged (Some (User ''u1'')), Snapshot []]" readyState "''app1''"]
    a r m readyState_reached
  show ?thesis by simp
qed

section \<open>The loading flag\<close>

lemma click_ready:
  assumes "db st = Some d" "isAuthReady st" "step env (Click a now) st = Some st1"
  shows "loading st1 \<and> awaited a \<in> set (inflight st1)"
  using assms
  by (cases a)
     (auto simp: handleAddProduct_when_ready handleRemoveProduct_when_ready suspend_def
           split: if_splits)

lemma click_loading:
  assumes "loading st" "step env (Click a now) st = Some st1"
  shows "loading st1"
proof (cases "db st = None \<or> \<not> isAuthReady st")
  case True
  with assms show ?thesis
    by (cases a)
       (auto simp: handleAddProduct_not_ready handleRemoveProduct_not_ready suspend_def settle_def
             split: if_splits)
next
  case False
  then obtain d where "db st = Some d" "isAuthReady st" by auto
  with assms(2) show ?thesis using click_ready by blast
qed

lemma click_inflight:
  assumes "w \<in> set (inflight st)" "step env (Click a now) st = Some st1"
  shows "w \<in> set (inflight st1)"
proof (cases "db st = None \<or> \<not> isAuthReady st")
  case True
  with assms show ?thesis
    by (cases a)
       (auto simp: handleAddProduct_not_ready handleRemoveProduct_not_ready suspend_def settle_def
             split: if_splits)
next
  case False
  then obtain d where "db st = Some d" "isAuthReady st" by auto
  with assms show ?thesis
    by (cases a)
       (auto simp: handleAddProduct_when_ready handleRemoveProduct_when_ready suspend_def
             split: if_splits)
qed

lemma signed_out_step:
  assumes "step env (AuthStateChanged None) st = Some st1"
  shows "loading st1 = loading st \<and> set (inflight st) \<subseteq> set (inflight st1)"
  using assms
  by (auto simp: authStateChanged_def suspend_def issue_def rerender_def
           split: option.splits)

lemma sign_in_settled_step:
  assumes "step env (Settled AwaitSignIn outcome) st = Some st1"
  shows "loading st1 = loading st \<and> inflight st1 = remove1 AwaitSignIn (inflight st)"
  using assms
  by (auto simp: authStateChanged_resume_def settle_def Let_def split: if_splits option.splits)

lemma quiet_step:
  assumes "quiet e" "loading st" "w \<in> set (inflight st)" "w \<noteq> AwaitSignIn"
    "step env e st = Some st1"
  shows "loading st1 \<and> w \<in> set (inflight st1)"
proof (cases e)
  case (Click a now)
  then have s: "step env (Click a now) st = Some st1" using assms(5) by simp
  show ?thesis
    using click_loading [OF assms(2) s] click_inflight [OF assms(3) s] by simp
next
  case (AuthStateChanged usr)
  with assms(1) have "usr = None" by (cases usr) simp_all
  with AuthStateChanged assms(5) have "step env (AuthStateChanged None) st = Some st1" by simp
  from signed_out_step [OF this] show ?thesis using assms(2,3) by auto
next
  case (Settled w' outcome)
  with assms(1) have "w' = AwaitSignIn" by (cases w') simp_all
  with Settled assms(5) have "step env (Settled AwaitSignIn outcome) st = Some st1" by simp
  from sign_in_settled_step [OF this] show ?thesis using assms(2,3,4) by simp
next
  case Mount
  with assms(1) show ?thesis by simp
next
  case (Snapshot snapshot)
  with assms(1) show ?thesis by simp
next
  case (SnapshotError error)
  with assms(1) show ?thesis by simp
qed

lemma quiet_run:
  assumes "list_all quiet evs" "loading st" "w \<in> set (inflight st)" "w \<noteq> AwaitSignIn"
    "run env evs st = Some st2"
  shows "loading st2 \<and> w \<in> set (inflight st2)"
  using assms
proof (induction evs arbitrary: st)
  case Nil
  then show ?case by simp
next
  case (Cons e evs st)
  from Cons.prems(5) obtain st1 where 1: "step env e st = Some st1" and 2: "run env evs st1 = Some st2"
    by (simp split: option.splits)
  from Cons.prems(1) have q: "quiet e" "list_all quiet evs" by simp_all
  from quiet_step [OF q(1) Cons.prems(2,3,4) 1] have 3: "loading st1" "w \<in> set (inflight st1)"
    by simp_all
  show ?case by (rule Cons.IH [OF q(2) 3 Cons.prems(4) 2])
qed

lemma completion_step:
  assumes "w \<noteq> AwaitSignIn" "step env (Settled w outcome) st = Some st1"
  shows "\<not> loading st1"
  using assms
  by (cases w)
     (auto simp: handleAddProduct_resume_eq handleRemoveProduct_resume_eq settle_def Let_def
           split: if_splits)

lemma awaited_not_sign_in: "awaited a \<noteq> AwaitSignIn"
  by (cases a) simp_all

text \<open>
  Claim C4 as stated: the loading flag is true exactly while an insert or remove is in
  flight. It is not. The one flag also serves startup and the subscription: a snapshot
  delivered while an insert is awaited clears it (the run below ends with the flag false
  and the write still awaited), and in the initial state it is true with nothing in
  flight.
\<close>

theorem loading_cleared_in_flight_counterexample:
  "map_option loading (run exampleEnv
     [Mount, AuthStateChanged (Some (User ''u1'')), Snapshot [], Click (AddClick sausageRoll) 5,
      Snapshot [\<lparr>doc_id = ''a'', doc_data = \<lparr>name = ''Sausage Roll'', timestamp = 5, addedBy = Some ''u1''\<rparr>\<rparr>]]
     initial) = Some False \<and>
   map_option inflight (run exampleEnv
     [Mount, AuthStateChanged (Some (User ''u1'')), Snapshot [], Click (AddClick sausageRoll) 5,
      Snapshot [\<lparr>doc_id = ''a'', doc_data = \<lparr>name = ''Sausage Roll'', timestamp = 5, addedBy = Some ''u1''\<rparr>\<rparr>]]
     initial) = Some [AwaitAddDoc] \<and>
   loading initial = True \<and> inflight initial = []"
  by (simp add: example_defs)

text \<open>
  Claim C4, amended. Invoking insert or remove with the database handle present and
  identity ready sets the loading flag; the flag stays set, and the call stays in flight,
  for as long as no snapshot, subscription error, signed-in report or completion of an
  insert or remove is delivered (that is, while nothing but clicks, signed-out reports
  and settled sign-ins happens); and the completion of the call, success or failure,
  clears it.
\<close>

theorem loading_spans_undisturbed_call:
  assumes "db st \<noteq> None" "isAuthReady st"
    and "step env (Click a now) st = Some st1"
    and "list_all quiet evs" "run env evs st1 = Some st2"
    and "step env (Settled (awaited a) outcome) st2 = Some st3"
  shows "loading st1 \<and> loading st2 \<and> awaited a \<in> set (inflight st2) \<and> \<not> loading st3"
proof -
  from assms(1) obtain d where "db st = Some d" by auto
  from click_ready [OF this assms(2,3)] have 1: "loading st1" "awaited a \<in> set (inflight st1)"
    by simp_all
  from quiet_run [OF assms(4) 1 awaited_not_sign_in assms(5)]
  have 2: "loading st2" "awaited a \<in> set (inflight st2)" by simp_all
  from completion_step [OF awaited_not_sign_in assms(6)] have "\<not> loading st3" .
  with 1 2 show ?thesis by simp
qed

theorem loading_spans_undisturbed_call_witness:
  "db readyState \<noteq> None \<and> isAuthReady readyState \<and> list_all quiet [AuthStateChanged None] \<and>
   map_option loading (run exampleEnv
     [Click (AddClick sausageRoll) 5, AuthStateChanged None] readyState) = Some True \<and>
   map_option loading (run exampleEnv
     [Click (AddClick sausageRoll) 5, AuthStateChanged None, Settled AwaitAddDoc None] readyState) = Some False"
proof -
  have r: "db readyState \<noteq> None" "isAuthReady readyState" by (simp_all add: readyState_def)
  have q: "list_all quiet [AuthStateChanged None]" by simp
  have "\<exists>S. run exampleEnv
     [Click (AddClick sausageRoll) 5, AuthStateChanged None, Settled AwaitAddDoc None] readyState = Some S"
    by (simp add: example_defs)
  then obtain S1 S2 S3 where 1: "step exampleEnv (Click (AddClick sausageRoll) 5) readyState = Some S1"
    and 2: "run exampleEnv [AuthStateChanged None] S1 = Some S2"
    and 3: "step exampleEnv (Settled (awaited (AddClick sausageRoll)) None) S2 = Some S3"
    by (auto simp only: run_Cons_Some run.simps(1) option.inject awaited.simps)
  from loading_spans_undisturbed_call [OF r 1 q 2 3] have "loading S2" "\<not> loading S3" by simp_all
  moreover have "run exampleEnv [Click (AddClick sausageRoll) 5, AuthStateChanged None] readyState = Some S2"
    using 1 2 by (auto simp only: run_Cons_Some run.simps(1) option.inject)
  moreover have "run exampleEnv
     [Click (AddClick sausageRoll) 5, AuthStateChanged None, Settled AwaitAddDoc None] readyState = Some S3"
    using 1 2 3 by (auto simp only: run_Cons_Some run.simps(1) option.inject awaited.simps)
  ultimately show ?thesis using r q by simp
qed

section \<open>Sign-in failure\<close>

text \<open>
  Claim C6 asks that an error of the identity service during sign-in be reported to the
  console. Started with a configuration and no token, the component is told the session
  is signed out, calls \<open>signInAnonymously\<close>, and the call is rejected: nothing is
  written to the console, the rejection is left unhandled, no further call is made,
  readiness stays false and the loading flag stays set.
\<close>

theorem sign_in_rejection_not_logged:
  "map_option console (run exampleEnv
     [Mount, AuthStateChanged None, Settled AwaitSignIn (Some ''auth/network-request-failed'')]
     initial) = Some [] \<and>
   map_option unhandled (run exampleEnv
     [Mount, AuthStateChanged None, Settled AwaitSignIn (Some ''auth/network-request-failed'')]
     initial) = Some [''auth/network-request-failed''] \<and>
   map_option calls (run exampleEnv
     [Mount, AuthStateChanged None, Settled AwaitSignIn (Some ''auth/network-request-failed'')]
     initial) = Some [OnAuthStateChanged (Auth (FirebaseApp ''{}'')), SignInAnonymously (Auth (FirebaseApp ''{}''))] \<and>
   map_option isAuthReady (run exampleEnv
     [Mount, AuthStateChanged None, Settled AwaitSignIn (Some ''auth/network-request-failed'')]
     initial) = Some False \<and>
   map_option loading (run exampleEnv
     [Mount, AuthStateChanged None, Settled AwaitSignIn (Some ''auth/network-request-failed'')]
     initial) = Some True"
  by (simp add: example_defs)

section \<open>Startup without configuration\<close>

lemma mount_inert:
  assumes "firebase_config env = None \<or> app_id env = None" "step env Mount initial = Some st"
  shows "inert st"
  using assms
  by (auto simp: inert_def initial_def initEffect_def rerender_def console_error_def
           split: option.splits if_splits)

lemma inert_step:
  assumes "inert st" "step env e st = Some st'"
  shows "inert st'"
proof (cases e)
  case (Click a now)
  from assms(1) have n: "db st = None \<or> \<not> isAuthReady st" by (simp add: inert_def)
  from Click assms(2) have "st' = suspend (case a of
                   AddClick item \<Rightarrow> handleAddProduct env item now st
                 | RemoveClick ident \<Rightarrow> handleRemoveProduct env ident st)"
    by (auto split: if_splits)
  then have "st' = st\<lparr>console := console st @ [(''Database not ready or not authenticated.'', None)]\<rparr>"
    by (cases a)
       (simp_all add: handleAddProduct_not_ready [OF n] handleRemoveProduct_not_ready [OF n]
          suspend_def settle_def)
  with assms(1) show ?thesis
    by (cases "console st") (simp_all add: inert_def)
next
  case Mount
  with assms show ?thesis by (auto simp: inert_def initial_def split: if_splits)
next
  case (AuthStateChanged usr)
  with assms show ?thesis by (simp add: inert_def)
next
  case (Snapshot snapshot)
  with assms show ?thesis by (simp add: inert_def)
next
  case (SnapshotError error)
  with assms show ?thesis by (simp add: inert_def)
next
  case (Settled w outcome)
  with assms show ?thesis by (simp add: inert_def)
qed

lemma inert_run:
  assumes "inert st" "run env evs st = Some st'"
  shows "inert st'"
  using assms
proof (induction evs arbitrary: st)
  case Nil
  then show ?case by simp
next
  case (Cons e evs st)
  from Cons.prems(2) obtain st1 where 1: "step env e st = Some st1" and 2: "run env evs st1 = Some st'"
    by (simp split: option.splits)
  show ?case by (rule Cons.IH [OF inert_step [OF Cons.prems(1) 1] 2])
qed

text \<open>
  Claim C7. When the backend configuration or the deployment identifier is absent,
  mounting logs \<open>Firebase config or app ID not found.\<close> and clears the loading flag,
  and whatever happens afterwards the component stays as it is: no database or auth
  handle, readiness false, no call to any service, an empty list.
\<close>

theorem missing_configuration_inert:
  assumes "firebase_config env = None \<or> app_id env = None"
    and "run env (Mount # evs) initial = Some st"
  shows "take 1 (console st) = [(''Firebase config or app ID not found.'', None)] \<and>
         \<not> loading st \<and> db st = None \<and> auth st = None \<and> \<not> isAuthReady st \<and>
         calls st = [] \<and> products st = []"
proof -
  from assms(2) obtain st1 where 1: "step env Mount initial = Some st1" and 2: "run env evs st1 = Some st"
    by (simp split: option.splits)
  from inert_run [OF mount_inert [OF assms(1) 1] 2] show ?thesis
    by (simp add: inert_def)
qed

theorem missing_configuration_inert_witness:
  "(firebase_config (exampleEnv\<lparr>app_id := None\<rparr>) = None \<or> app_id (exampleEnv\<lparr>app_id := None\<rparr>) = None) \<and>
   map_option console (run (exampleEnv\<lparr>app_id := None\<rparr>) [Mount, Click (AddClick sausageRoll) 5] initial) =
     Some [(''Firebase config or app ID not found.'', None),
           (''Database not ready or not authenticated.'', None)] \<and>
   map_option loading (run (exampleEnv\<lparr>app_id := None\<rparr>) [Mount, Click (AddClick sausageRoll) 5] initial) = Some False \<and>
   map_option isAuthReady (run (exampleEnv\<lparr>app_id := None\<rparr>) [Mount, Click (AddClick sausageRoll) 5] initial) = Some False \<and>
   map_option calls (run (exampleEnv\<lparr>app_id := None\<rparr>) [Mount, Click (AddClick sausageRoll) 5] initial) = Some []"
proof -
  have e: "firebase_config (exampleEnv\<lparr>app_id := None\<rparr>) = None \<or> app_id (exampleEnv\<lparr>app_id := None\<rparr>) = None"
    by simp
  have c: "map_option console (run (exampleEnv\<lparr>app_id := None\<rparr>) [Mount, Click (AddClick sausageRoll) 5] initial) =
     Some [(''Firebase config or app ID not found.'', None),
           (''Database not ready or not authenticated.'', None)]"
    by (simp add: example_defs)
  then obtain S where S: "run (exampleEnv\<lparr>app_id := None\<rparr>) [Mount, Click (AddClick sausageRoll) 5] initial = Some S"
    by blast
  from missing_configuration_inert [OF e S] c S e show ?thesis by simp
qed

end
